theory Spec2Isabelle
  imports Main
begin

section \<open>Values shared by the package\<close>

text \<open>
  A compiled schema is handled through a pointer (\<open>*Schema\<close>), and pointer identity
  is what the loop check compares. The compiler makes at most one compiled schema for a
  location, so a pointer is modelled by the location (resource URL and fragment) of the
  schema it points to.
\<close>

type_synonym schema_ptr = string

text \<open>
  \<open>schemaRef\<close>: the back-reference kept on the compilation stack and in the scope list:
  the keyword path through which a schema was entered, and the schema itself.
\<close>

record schemaRef =
  path :: string
  schema :: schema_ptr

text \<open>
  Go's \<open>interface{}\<close>: a dynamic value. The constructors are the dynamic types that the
  modelled functions distinguish. \<open>Float64\<close> carries the rendering that \<open>fmt.Sprint\<close>
  gives the float, the only thing the modelled code reads from it. Integers are kept as
  mathematical integers inside the range of their type.
\<close>

datatype iface =
    Nil
  | JsonschemaCtx string
  | GoString string
  | GoBool bool
  | GoInt int
  | GoInt32 int
  | GoInt64 int
  | Float64 string
  | JsonNumber string
  | SchemaRefs "schemaRef list"
  | JsonArray "iface list"
  | JsonObject "(string \<times> iface) list"

datatype panic = Panic string

section \<open>The context keys and accessors\<close>

text \<open>
  A \<open>context.Context\<close> as far as values are concerned: the chain of \<open>WithValue\<close> frames,
  innermost first. \<open>context.Background()\<close> is the empty chain.
\<close>

type_synonym Context = "(iface \<times> iface) list"

definition Background :: Context where
  "Background = []"

fun Value :: "Context \<Rightarrow> iface \<Rightarrow> iface" where
  "Value [] key = Nil"
| "Value ((k, v) # parent) key = (if k = key then v else Value parent key)"

text \<open>Slices and maps are the dynamic types that cannot be compared with \<open>==\<close>.\<close>

fun comparable :: "iface \<Rightarrow> bool" where
  "comparable (SchemaRefs _) = False"
| "comparable (JsonArray _) = False"
| "comparable (JsonObject _) = False"
| "comparable _ = True"

text \<open>\<open>context.WithValue\<close> panics on a nil key and on a key that is not comparable.\<close>

definition WithValue :: "Context \<Rightarrow> iface \<Rightarrow> iface \<Rightarrow> panic + Context" where
  "WithValue parent key val =
     (if key = Nil then Inl (Panic ''nil key'')
      else if \<not> comparable key then Inl (Panic ''key is not comparable'')
      else Inr ((key, val) # parent))"

definition instanceCtxKey :: iface where
  "instanceCtxKey = JsonschemaCtx ''instance''"

definition instancePathCtxKey :: iface where
  "instancePathCtxKey = JsonschemaCtx ''path''"

definition keywordPathCtxKey :: iface where
  "keywordPathCtxKey = JsonschemaCtx ''keyword_path''"

definition scopesCtxKey :: iface where
  "scopesCtxKey = JsonschemaCtx ''scopes''"

definition GetInstance :: "Context \<Rightarrow> panic + iface" where
  "GetInstance ctx = Inr (Value ctx instanceCtxKey)"

text \<open>
  The three typed accessors assert the dynamic type without the two-result form, so any
  other dynamic type, nil included, is a run-time panic.
\<close>

definition GetScopes :: "Context \<Rightarrow> panic + schemaRef list" where
  "GetScopes ctx =
     (case Value ctx scopesCtxKey of
        SchemaRefs s \<Rightarrow> Inr s
      | _ \<Rightarrow> Inl (Panic ''interface conversion''))"

definition GetKeywordPath :: "Context \<Rightarrow> panic + string" where
  "GetKeywordPath ctx =
     (case Value ctx keywordPathCtxKey of
        GoString s \<Rightarrow> Inr s
      | _ \<Rightarrow> Inl (Panic ''interface conversion''))"

definition GetInstancePath :: "Context \<Rightarrow> panic + string" where
  "GetInstancePath ctx =
     (case Value ctx instancePathCtxKey of
        GoString s \<Rightarrow> Inr s
      | _ \<Rightarrow> Inl (Panic ''interface conversion''))"

text \<open>
  \<open>withValues\<close>: the loop \<open>for i := 1; i < len(vals); i += 2\<close>, with the index kept.
  Both reads are in range under the loop guard.
\<close>

function withValues_loop :: "Context \<Rightarrow> iface list \<Rightarrow> nat \<Rightarrow> panic + Context" where
  "withValues_loop ctx vals i =
     (if i < length vals then
        (case WithValue ctx (vals ! (i - 1)) (vals ! i) of
           Inl p \<Rightarrow> Inl p
         | Inr ctx' \<Rightarrow> withValues_loop ctx' vals (i + 2))
      else Inr ctx)"
  by pat_completeness auto
termination
  by (relation "measure (\<lambda>(ctx, vals, i). length vals - i)") auto

declare withValues_loop.simps [simp del]

definition withValues :: "Context \<Rightarrow> iface list \<Rightarrow> panic + Context" where
  "withValues ctx vals = withValues_loop ctx vals 1"

section \<open>Errors\<close>

text \<open>
  Modelled from the spec: the declaration of \<open>ValidationError\<close> is not part of the
  sources at hand. The spec gives it as a tree of schema URL, keyword path, instance
  path, message and children, with an optional structured keyword value.
\<close>

datatype ValidationError =
  ValidationError
    (KeywordLocation: string)
    (AbsoluteKeywordLocation: string)
    (InstanceLocation: string)
    (Message: string)
    (KeywordValue: iface)
    (Causes: "ValidationError list")

text \<open>
  Go's \<open>error\<close> values that occur: a validation error, the infinite-loop error (a string:
  the location where the chain starts followed by the keywords traversed), a schema
  compilation error, and the two errors of \<open>strconv\<close>.
\<close>

datatype error =
    ValidationErr ValidationError
  | InfiniteLoopError string
  | SchemaError string
  | ErrSyntax
  | ErrRange

section \<open>Extensions\<close>

subsection \<open>The validation context\<close>

text \<open>
  Modelled from the spec: the declaration of \<open>validationResult\<close> is not part of the
  sources at hand. The spec gives it as the running set of unevaluated property names,
  the running set of unevaluated item indices and the list of child errors. The two sets
  are Go maps with empty values; \<open>delete\<close> on them is what the source uses.
\<close>

record validationResult =
  unevalProps :: "string \<rightharpoonup> unit"
  unevalItems :: "int \<rightharpoonup> unit"
  childErrors :: "error list"

record ValidationContext =
  result :: validationResult
  validate :: "Context \<Rightarrow> schema_ptr \<Rightarrow> string \<Rightarrow> iface \<Rightarrow> string \<Rightarrow> error option"
  validateInplace :: "Context \<Rightarrow> schema_ptr \<Rightarrow> string \<Rightarrow> error option"
  validationError :: "Context \<Rightarrow> string \<Rightarrow> iface \<Rightarrow> string \<Rightarrow> iface list \<Rightarrow> ValidationError"

text \<open>
  \<open>EvaluatedProp\<close> and \<open>EvaluatedItem\<close> return nothing and mutate the map that the
  context shares with the engine; the model returns the context with the map updated.
\<close>

definition EvaluatedProp :: "ValidationContext \<Rightarrow> string \<Rightarrow> ValidationContext" where
  "EvaluatedProp ctx prop =
     ctx\<lparr>result := (result ctx)\<lparr>unevalProps := (unevalProps (result ctx))(prop := None)\<rparr>\<rparr>"

definition EvaluatedItem :: "ValidationContext \<Rightarrow> int \<Rightarrow> ValidationContext" where
  "EvaluatedItem ctx index =
     ctx\<lparr>result := (result ctx)\<lparr>unevalItems := (unevalItems (result ctx))(index := None)\<rparr>\<rparr>"

definition Validate ::
  "ValidationContext \<Rightarrow> Context \<Rightarrow> schema_ptr \<Rightarrow> string \<Rightarrow> iface \<Rightarrow> string \<Rightarrow> error option" where
  "Validate vctx ctx s spath v vpath =
     (if vpath = '''' then validateInplace vctx ctx s spath
      else validate vctx ctx s spath v vpath)"

definition Error ::
  "ValidationContext \<Rightarrow> Context \<Rightarrow> string \<Rightarrow> iface \<Rightarrow> string \<Rightarrow> iface list \<Rightarrow> ValidationError" where
  "Error vctx ctx keywordPath keywordValue format a =
     validationError vctx ctx keywordPath keywordValue format a"

subsection \<open>Extension compilers and schemas\<close>

text \<open>
  \<open>ExtSchema\<close> and \<open>ExtCompiler\<close> are interfaces with one method each; a value of the
  interface is modelled by that method. A validate hook may loop forever (the outer
  \<open>option\<close>: \<open>None\<close> is a run that does not return) or panic; otherwise it returns
  an error or nil. A compile hook may panic. The
  compile hook receives the compiler context by value; the context is left out of the
  hook's arguments here.
\<close>

type_synonym ExtSchema =
  "Context \<Rightarrow> ValidationContext \<Rightarrow> iface \<Rightarrow> (panic + error option) option"

type_synonym ExtCompiler = "(string \<rightharpoonup> iface) \<Rightarrow> panic + ExtSchema option \<times> error option"

record extension =
  meta :: schema_ptr
  compiler :: ExtCompiler


subsection \<open>The compiler's extension table\<close>

text \<open>
  A raw schema as the compiler reads it: the JSON object itself, and the schemas it
  refers to. Each reference keyword or applicator is listed with its relative keyword
  path, the location it leads to, and whether the schema there applies to the same
  instance value (\<open>$ref\<close>, \<open>allOf\<close>, \<open>not\<close>, ...) or to a child (\<open>properties\<close>,
  \<open>items\<close>, ...).
\<close>

record applicator =
  keyword :: string
  sameInstance :: bool
  target :: string

record rawSchema =
  object :: "string \<rightharpoonup> iface"
  applicators :: "applicator list"

text \<open>
  Modelled from the spec: the declaration of \<open>Schema\<close> is not part of the sources at
  hand. Of the compiled schema the model keeps its location and the annotation fields
  that the spec lists; the references to other compiled schemas are kept in the
  compiler (\<open>edges\<close> below).
\<close>

record Schema =
  Location :: string
  Title :: string
  Description :: string
  Comment :: string
  Default :: iface
  Examples :: "iface list"
  ReadOnly :: bool
  WriteOnly :: bool
  Deprecated :: bool

text \<open>
  Modelled from the spec: the declaration of \<open>Compiler\<close> is not part of the sources at
  hand. The fields are those the sources use (\<open>extensions\<close>, \<open>ExtractAnnotations\<close>) and
  those the spec gives the compiler: the resource store (raw schemas by location) and the
  compiled-location table with the references stored in the compiled nodes. The
  extension table is a Go map, which is nil until it is made.
\<close>

record Compiler =
  ExtractAnnotations :: bool
  extensions :: "(string \<rightharpoonup> extension) option"
  resources :: "(string \<times> rawSchema) list"
  compiled :: "(schema_ptr \<times> Schema) list"
  edges :: "(schema_ptr \<times> string \<times> schema_ptr) list"

text \<open>An assignment to an entry of a nil map is a run-time panic.\<close>

definition RegisterExtension ::
  "Compiler \<Rightarrow> string \<Rightarrow> schema_ptr \<Rightarrow> ExtCompiler \<Rightarrow> panic + Compiler" where
  "RegisterExtension c name m ext =
     (case extensions c of
        None \<Rightarrow> Inl (Panic ''assignment to entry in nil map'')
      | Some table \<Rightarrow>
          Inr (c\<lparr>extensions := Some (table(name \<mapsto> \<lparr>meta = m, compiler = ext\<rparr>))\<rparr>))"

section \<open>The example extension \<open>powerOf\<close>\<close>

subsection \<open>What it uses of the standard library\<close>

text \<open>
  \<open>int64\<close> values are integers between \<open>-2^63\<close> and \<open>2^63 - 1\<close>. Go's \<open>/\<close> truncates
  towards zero and \<open>%\<close> takes the sign of the dividend; the one quotient that overflows
  (the least value divided by \<open>-1\<close>) wraps around. Both panic on a zero divisor, which the
  callers check first.
\<close>

definition wrap64 :: "int \<Rightarrow> int" where
  "wrap64 x = (x + 2 ^ 63) mod 2 ^ 64 - 2 ^ 63"

definition go_quot :: "int \<Rightarrow> int \<Rightarrow> int" where
  "go_quot a b = wrap64 (sgn a * sgn b * (\<bar>a\<bar> div \<bar>b\<bar>))"

definition go_rem :: "int \<Rightarrow> int \<Rightarrow> int" where
  "go_rem a b = sgn a * (\<bar>a\<bar> mod \<bar>b\<bar>)"

text \<open>Decimal rendering of an integer, as \<open>fmt.Sprint\<close> and \<open>%v\<close> give it.\<close>

function digits :: "nat \<Rightarrow> string" where
  "digits n =
     (if n < 10 then [''0123456789'' ! n]
      else digits (n div 10) @ [''0123456789'' ! (n mod 10)])"
  by pat_completeness auto
termination
  by (relation "measure id") auto

declare digits.simps [simp del]

definition itoa :: "int \<Rightarrow> string" where
  "itoa i = (if i < 0 then CHR ''-'' # digits (nat (- i)) else digits (nat i))"

text \<open>
  \<open>fmt.Sprint\<close> of one value. The rendering is exact for the scalar types; a slice and a
  map are rendered in Go's bracket form with the entries in the stored order, and a
  schema reference by its path alone. The modelled code prints numbers only.
\<close>

fun Sprint :: "iface \<Rightarrow> string" where
  "Sprint Nil = ''<nil>''"
| "Sprint (JsonschemaCtx s) = s"
| "Sprint (GoString s) = s"
| "Sprint (GoBool b) = (if b then ''true'' else ''false'')"
| "Sprint (GoInt i) = itoa i"
| "Sprint (GoInt32 i) = itoa i"
| "Sprint (GoInt64 i) = itoa i"
| "Sprint (Float64 s) = s"
| "Sprint (JsonNumber s) = s"
| "Sprint (SchemaRefs rs) = ''['' @ concat (map (\<lambda>r. ''{'' @ path r @ ''}'') rs) @ '']''"
| "Sprint (JsonArray vs) = ''['' @ concat (map (\<lambda>v. Sprint v @ '' '') vs) @ '']''"
| "Sprint (JsonObject kvs) =
     ''map['' @ concat (map (\<lambda>(k, v). k @ '':'' @ Sprint v @ '' '') kvs) @ '']''"

text \<open>\<open>fmt.Sprintf\<close> for the verb \<open>%v\<close>, the only verb the modelled code uses.\<close>

fun Sprintf :: "string \<Rightarrow> iface list \<Rightarrow> string" where
  "Sprintf [] a = []"
| "Sprintf [c] a = [c]"
| "Sprintf (c # d # rest) a =
     (if c = CHR ''%'' \<and> d = CHR ''v'' then
        (case a of
           [] \<Rightarrow> ''%!v(MISSING)'' @ Sprintf rest []
         | x # xs \<Rightarrow> Sprint x @ Sprintf rest xs)
      else c # Sprintf (d # rest) a)"

text \<open>
  \<open>strconv.ParseUint(s, 10, 64)\<close>: a character that is not a decimal digit is a syntax
  error with value 0; a value beyond 64 bits is a range error with the greatest value,
  returned at the digit where the overflow shows.
\<close>

definition digit_val :: "char \<Rightarrow> nat option" where
  "digit_val ch =
     (let code = (of_char ch :: nat)
      in if 48 \<le> code \<and> code \<le> 57 then Some (code - 48) else None)"

fun ParseUint_loop :: "string \<Rightarrow> nat \<Rightarrow> nat \<times> error option" where
  "ParseUint_loop [] n = (n, None)"
| "ParseUint_loop (ch # s) n =
     (case digit_val ch of
        None \<Rightarrow> (0, Some ErrSyntax)
      | Some d \<Rightarrow>
          if n \<ge> (2 ^ 64 - 1) div 10 + 1 then (2 ^ 64 - 1, Some ErrRange)
          else if n * 10 + d > 2 ^ 64 - 1 then (2 ^ 64 - 1, Some ErrRange)
          else ParseUint_loop s (n * 10 + d))"

definition ParseUint :: "string \<Rightarrow> nat \<times> error option" where
  "ParseUint s = (if s = [] then (0, Some ErrSyntax) else ParseUint_loop s 0)"

text \<open>
  \<open>strconv.ParseInt(s, 10, 64)\<close>: an optional sign, then \<open>ParseUint\<close>. A syntax error
  gives 0; a value out of range gives the nearest \<open>int64\<close> and a range error.
\<close>

definition ParseInt :: "string \<Rightarrow> int \<times> error option" where
  "ParseInt s0 =
     (if s0 = [] then (0, Some ErrSyntax)
      else
        let neg = (hd s0 = CHR ''-'');
            s = (if hd s0 = CHR ''+'' \<or> hd s0 = CHR ''-'' then tl s0 else s0);
            (un, err) = ParseUint s
        in if err \<noteq> None \<and> err \<noteq> Some ErrRange then (0, err)
           else if \<not> neg \<and> un \<ge> 2 ^ 63 then (2 ^ 63 - 1, Some ErrRange)
           else if neg \<and> un > 2 ^ 63 then (- (2 ^ 63), Some ErrRange)
           else (if neg then - int un else int un, None))"

subsection \<open>The extension\<close>

text \<open>
  The loop \<open>for n%pow == 0 { n = n / pow }\<close>. It does not end for \<open>n = 0\<close>, nor for a
  divisor 1 or -1, so it is a partial function: \<open>None\<close> is the run that never leaves the
  loop. A zero divisor panics at the first test.
\<close>

partial_function (option) powerOf_loop :: "int \<Rightarrow> int \<Rightarrow> (panic + int) option" where
  "powerOf_loop n pow =
     (if pow = 0 then Some (Inl (Panic ''integer divide by zero''))
      else if go_rem n pow = 0 then powerOf_loop (go_quot n pow) pow
      else Some (Inr n))"

text \<open>
  \<open>powerOfSchema.Validate\<close>, for the schema value \<open>s\<close>. The type switch takes
  \<open>json.Number\<close>, \<open>float64\<close>, \<open>int\<close>, \<open>int32\<close> and \<open>int64\<close>; every other dynamic type
  passes. The error of \<open>ParseInt\<close> is dropped and its value used.
\<close>

fun powerOf_number :: "iface \<Rightarrow> bool" where
  "powerOf_number (JsonNumber _) = True"
| "powerOf_number (Float64 _) = True"
| "powerOf_number (GoInt _) = True"
| "powerOf_number (GoInt32 _) = True"
| "powerOf_number (GoInt64 _) = True"
| "powerOf_number _ = False"

definition powerOfSchema_Validate :: "int \<Rightarrow> ExtSchema" where
  "powerOfSchema_Validate s ctx vctx v =
     (if powerOf_number v then
        (let pow = s;
             n = fst (ParseInt (Sprint v))
         in case powerOf_loop n pow of
              None \<Rightarrow> None
            | Some (Inl p) \<Rightarrow> Some (Inl p)
            | Some (Inr n') \<Rightarrow>
                if n' \<noteq> 1 then
                  Some (Inr (Some (ValidationErr
                    (Error vctx ctx ''powerOf'' (JsonArray [v, GoInt64 pow])
                       ''%v not powerOf %v'' [v, GoInt64 pow]))))
                else Some (Inr None))
      else Some (Inr None))"

text \<open>
  \<open>powerOfCompiler.Compile\<close>. The type assertion on the keyword's value panics when the
  value is not a \<open>json.Number\<close>; \<open>json.Number.Int64\<close> is \<open>ParseInt\<close> in base 10 and 64
  bits, and its value and error are returned as they come.
\<close>

definition powerOfCompiler_Compile :: ExtCompiler where
  "powerOfCompiler_Compile m =
     (case m ''powerOf'' of
        Some pow \<Rightarrow>
          (case pow of
             JsonNumber num \<Rightarrow>
               (let (n, err) = ParseInt num in Inr (Some (powerOfSchema_Validate n), err))
           | _ \<Rightarrow> Inl (Panic ''interface conversion''))
      | None \<Rightarrow> Inr (None, None))"

section \<open>Compiling a schema and its references\<close>

subsection \<open>Annotations\<close>

text \<open>
  Modelled from the spec: the code that fills a compiled schema is not part of the
  sources at hand. The spec: a node is allocated empty; the annotation fields (title,
  description, \<open>$comment\<close>, default, examples, readOnly, writeOnly, deprecated) are
  populated if and only if \<open>ExtractAnnotations\<close> is enabled. A field whose keyword is
  missing from the raw schema, or has a value of another type, keeps its zero value.
\<close>

definition newSchema :: "string \<Rightarrow> Schema" where
  "newSchema loc =
     \<lparr>Location = loc, Title = [], Description = [], Comment = [], Default = Nil,
      Examples = [], ReadOnly = False, WriteOnly = False, Deprecated = False\<rparr>"

definition string_keyword :: "(string \<rightharpoonup> iface) \<Rightarrow> string \<Rightarrow> string" where
  "string_keyword m k = (case m k of Some (GoString x) \<Rightarrow> x | _ \<Rightarrow> [])"

definition bool_keyword :: "(string \<rightharpoonup> iface) \<Rightarrow> string \<Rightarrow> bool" where
  "bool_keyword m k = (case m k of Some (GoBool b) \<Rightarrow> b | _ \<Rightarrow> False)"

definition array_keyword :: "(string \<rightharpoonup> iface) \<Rightarrow> string \<Rightarrow> iface list" where
  "array_keyword m k = (case m k of Some (JsonArray vs) \<Rightarrow> vs | _ \<Rightarrow> [])"

definition any_keyword :: "(string \<rightharpoonup> iface) \<Rightarrow> string \<Rightarrow> iface" where
  "any_keyword m k = (case m k of Some v \<Rightarrow> v | None \<Rightarrow> Nil)"

definition extractAnnotations :: "bool \<Rightarrow> (string \<rightharpoonup> iface) \<Rightarrow> Schema \<Rightarrow> Schema" where
  "extractAnnotations enabled m s =
     (if enabled then
        s\<lparr>Title := string_keyword m ''title'',
          Description := string_keyword m ''description'',
          Comment := string_keyword m ''$comment'',
          Default := any_keyword m ''default'',
          Examples := array_keyword m ''examples'',
          ReadOnly := bool_keyword m ''readOnly'',
          WriteOnly := bool_keyword m ''writeOnly'',
          Deprecated := bool_keyword m ''deprecated''\<rparr>
      else s)"

subsection \<open>References and the loop check\<close>

text \<open>
  Modelled from the spec: \<open>compileRef\<close>, to which \<open>CompilerContext.Compile\<close> and
  \<open>CompilerContext.CompileRef\<close> hand over, and the loop check are not part of the
  sources at hand. The spec (reference resolver, schema compiler):
  \<^item> a reference to a location that the store does not have fails the compilation;
  \<^item> a target that is already compiled is returned as the shared node, unless it lies on
    the active compilation stack, which is the infinite-loop error;
  \<^item> otherwise the node is allocated empty, registered in the table of compiled
    locations, pushed on the stack and populated: every reference keyword and
    applicator of the raw schema is compiled in turn and stored in the node;
  \<^item> the stack is handed on to a schema that applies to the same instance and dropped
    for one that applies to a child instance, as \<open>CompilerContext.Compile\<close> does it;
  \<^item> the payload of the infinite-loop error starts with the location of the first schema
    on the stack, followed by the keywords traversed, separated by \<open>/\<close> as the test
    \<open>TestInfiniteLoopError\<close> expects them.
  References are given by the location they resolve to; the context and the two resource
  arguments of the source, which serve URL resolution and cancellation, are left out.
  The recursion is bounded by fuel: \<open>None\<close> is a compilation that has not returned
  within the bound.
\<close>

fun keyword_chain :: "schemaRef list \<Rightarrow> string" where
  "keyword_chain [] = []"
| "keyword_chain (r # rs) = schema r @ concat (map (\<lambda>x. ''/'' @ path x) rs)"

definition infiniteLoopError :: "schemaRef list \<Rightarrow> schemaRef \<Rightarrow> error" where
  "infiniteLoopError stack sref = InfiniteLoopError (keyword_chain stack @ ''/'' @ path sref)"

definition checkLoop :: "schemaRef list \<Rightarrow> schemaRef \<Rightarrow> error option" where
  "checkLoop stack sref =
     (if schema sref \<in> schema ` set stack then Some (infiniteLoopError stack sref) else None)"

fun compileRef ::
  "nat \<Rightarrow> Compiler \<Rightarrow> schemaRef list \<Rightarrow> string \<Rightarrow> string \<Rightarrow>
   (error + schema_ptr \<times> Compiler) option"
and compileApplicators ::
  "nat \<Rightarrow> Compiler \<Rightarrow> schemaRef list \<Rightarrow> schema_ptr \<Rightarrow> applicator list \<Rightarrow>
   (error + Compiler) option" where
  "compileRef 0 c stack refPtr ref = None"
| "compileRef (Suc fuel) c stack refPtr ref =
     (case map_of (resources c) ref of
        None \<Rightarrow> Some (Inl (SchemaError ref))
      | Some raw \<Rightarrow>
          if ref \<in> fst ` set (compiled c) then
            (case checkLoop stack \<lparr>path = refPtr, schema = ref\<rparr> of
               Some err \<Rightarrow> Some (Inl err)
             | None \<Rightarrow> Some (Inr (ref, c)))
          else
            (case compileApplicators fuel
                    (c\<lparr>compiled :=
                         (ref, extractAnnotations (ExtractAnnotations c) (object raw)
                                 (newSchema ref)) # compiled c\<rparr>)
                    (stack @ [\<lparr>path = refPtr, schema = ref\<rparr>]) ref (applicators raw) of
               None \<Rightarrow> None
             | Some (Inl err) \<Rightarrow> Some (Inl err)
             | Some (Inr c') \<Rightarrow> Some (Inr (ref, c'))))"
| "compileApplicators fuel c stack self [] = Some (Inr c)"
| "compileApplicators fuel c stack self (a # rest) =
     (case compileRef fuel c (if sameInstance a then stack else []) (keyword a) (target a) of
        None \<Rightarrow> None
      | Some (Inl err) \<Rightarrow> Some (Inl err)
      | Some (Inr (t, c')) \<Rightarrow>
          compileApplicators fuel (c'\<lparr>edges := edges c' @ [(self, keyword a, t)]\<rparr>)
            stack self rest)"

declare compileRef.simps(2) [simp del] compileApplicators.simps(2) [simp del]

text \<open>
  The entry point \<open>Compile(url)\<close>: an empty stack, and fuel for one more level than the
  store has locations, which is enough for every store (shown below).
\<close>

definition Compiler_Compile :: "Compiler \<Rightarrow> string \<Rightarrow> (error + schema_ptr \<times> Compiler) option" where
  "Compiler_Compile c loc = compileRef (Suc (length (resources c))) c [] ''#'' loc"

text \<open>
  Modelled from the spec: \<open>MustCompile\<close> is not part of the sources at hand. The spec: a
  helper wraps the compile entry point and converts a failure into a panic.
\<close>

definition MustCompile :: "Compiler \<Rightarrow> string \<Rightarrow> (panic + schema_ptr \<times> Compiler) option" where
  "MustCompile c loc =
     (case Compiler_Compile c loc of
        None \<Rightarrow> None
      | Some (Inl err) \<Rightarrow> Some (Inl (Panic ''jsonschema: Compile failed''))
      | Some (Inr compiled_schema) \<Rightarrow> Some (Inr compiled_schema))"

subsection \<open>Notions for the properties of compilation\<close>

text \<open>
  A compiler state \<open>c'\<close> extends \<open>c\<close> when the store and the settings are the same and
  every location compiled in \<open>c\<close> is compiled in \<open>c'\<close>. The locations of the store that
  are not compiled yet bound the depth of a compilation.
\<close>

definition extends :: "Compiler \<Rightarrow> Compiler \<Rightarrow> bool" where
  "extends c c' \<longleftrightarrow>
     resources c' = resources c \<and> ExtractAnnotations c' = ExtractAnnotations c
     \<and> extensions c' = extensions c \<and> fst ` set (compiled c) \<subseteq> fst ` set (compiled c')"

definition uncompiled :: "Compiler \<Rightarrow> string set" where
  "uncompiled c = fst ` set (resources c) - fst ` set (compiled c)"

subsection \<open>A chain of references\<close>

text \<open>
  A store that is one chain of references: the schemas at the locations \<open>ls\<close>, each with
  one reference keyword or applicator, given in \<open>es\<close> by its keyword path and whether
  it applies to the same instance. The keyword of a schema leads to the next schema of
  the chain, and the keyword of the last schema leads back to schema \<open>j\<close>. With
  \<open>j = 0\<close> the chain is a cycle through the root, as in the test of the infinite loop.
\<close>

definition chain_target :: "string list \<Rightarrow> nat \<Rightarrow> nat \<Rightarrow> string" where
  "chain_target ls j i = ls ! (if Suc i < length ls then Suc i else j)"

definition chain_raw :: "string list \<Rightarrow> (string \<times> bool) list \<Rightarrow> nat \<Rightarrow> nat \<Rightarrow> rawSchema" where
  "chain_raw ls es j i =
     \<lparr>object = Map.empty,
      applicators = [\<lparr>keyword = fst (es ! i), sameInstance = snd (es ! i),
                      target = chain_target ls j i\<rparr>]\<rparr>"

definition reference_chain ::
  "string list \<Rightarrow> (string \<times> bool) list \<Rightarrow> nat \<Rightarrow> (string \<times> rawSchema) list" where
  "reference_chain ls es j = map (\<lambda>i. (ls ! i, chain_raw ls es j i)) [0..<length ls]"

text \<open>
  What the compilation of the chain goes through: the stack entry of schema \<open>i\<close>; the
  stack that is handed to the reference into schema \<open>m\<close> (it restarts after every
  keyword that descends into a child instance); the table when the first \<open>m\<close> schemas
  are allocated; the references stored when the schemas from \<open>m\<close> on are populated.
\<close>

definition chain_sref :: "string list \<Rightarrow> (string \<times> bool) list \<Rightarrow> nat \<Rightarrow> schemaRef" where
  "chain_sref ls es i = \<lparr>path = (if i = 0 then ''#'' else fst (es ! (i - 1))), schema = ls ! i\<rparr>"

primrec chain_stack :: "string list \<Rightarrow> (string \<times> bool) list \<Rightarrow> nat \<Rightarrow> schemaRef list" where
  "chain_stack ls es 0 = []"
| "chain_stack ls es (Suc m) =
     (if snd (es ! m) then chain_stack ls es m @ [chain_sref ls es m] else [])"

definition chain_table :: "bool \<Rightarrow> string list \<Rightarrow> nat \<Rightarrow> (schema_ptr \<times> Schema) list" where
  "chain_table enabled ls m =
     rev (map (\<lambda>i. (ls ! i, extractAnnotations enabled Map.empty (newSchema (ls ! i)))) [0..<m])"

definition chain_edges ::
  "string list \<Rightarrow> (string \<times> bool) list \<Rightarrow> nat \<Rightarrow> nat \<Rightarrow> (schema_ptr \<times> string \<times> schema_ptr) list" where
  "chain_edges ls es j m =
     map (\<lambda>i. (ls ! i, fst (es ! i), chain_target ls j i)) (rev [m..<length ls])"

subsection \<open>Sub-compilation from an extension\<close>

record resource =
  url :: string
  floc :: string

record CompilerContext =
  cctx_c :: Compiler
  cctx_r :: resource
  cctx_stack :: "schemaRef list"
  cctx_res :: resource

text \<open>
  \<open>CompilerContext.Compile\<close> and \<open>CompilerContext.CompileRef\<close>. The local \<open>stack\<close> is
  the nil slice unless the schema applies to the same instance.
\<close>

definition Compile ::
  "nat \<Rightarrow> CompilerContext \<Rightarrow> Context \<Rightarrow> string \<Rightarrow> bool \<Rightarrow>
   (error + schema_ptr \<times> Compiler) option" where
  "Compile fuel cctx ctx schPath applicableOnSameInstance =
     (let stack = (if applicableOnSameInstance then cctx_stack cctx else [])
      in compileRef fuel (cctx_c cctx) stack schPath
           (url (cctx_r cctx) @ floc (cctx_res cctx) @ ''/'' @ schPath))"

definition CompileRef ::
  "nat \<Rightarrow> CompilerContext \<Rightarrow> Context \<Rightarrow> string \<Rightarrow> string \<Rightarrow> bool \<Rightarrow>
   (error + schema_ptr \<times> Compiler) option" where
  "CompileRef fuel cctx ctx ref refPath applicableOnSameInstance =
     (let stack = (if applicableOnSameInstance then cctx_stack cctx else [])
      in compileRef fuel (cctx_c cctx) stack refPath ref)"

section \<open>Where the core calls the extensions\<close>

text \<open>
  Modelled from the spec: the compiler's step for extensions is not part of the sources
  at hand. The spec (schema compiler, step 4): for each registered extension whose
  metaschema accepts the raw schema, call its compile hook; the extension nodes attached
  by the hooks are kept in the compiled schema. A raw schema that the metaschema of an
  extension rejects does not compile (the test of the invalid \<open>powerOf\<close> schema expects
  an error), and neither does one whose hook returns an error. The table is a Go map: the
  registered entries are taken in the order \<open>entries\<close>; the metaschema check is the
  parameter \<open>accepts\<close>.
\<close>

fun compileExtensions ::
  "(schema_ptr \<Rightarrow> (string \<rightharpoonup> iface) \<Rightarrow> bool) \<Rightarrow> (string \<times> extension) list \<Rightarrow>
   (string \<rightharpoonup> iface) \<Rightarrow> panic + (error + (string \<times> ExtSchema) list)" where
  "compileExtensions accepts [] m = Inr (Inr [])"
| "compileExtensions accepts ((name, ext) # rest) m =
     (if \<not> accepts (meta ext) m then Inr (Inl (SchemaError name))
      else
        (case compiler ext m of
           Inl p \<Rightarrow> Inl p
         | Inr (es, Some err) \<Rightarrow> Inr (Inl err)
         | Inr (es, None) \<Rightarrow>
             (case compileExtensions accepts rest m of
                Inl p \<Rightarrow> Inl p
              | Inr (Inl err) \<Rightarrow> Inr (Inl err)
              | Inr (Inr nodes) \<Rightarrow>
                  (case es of
                     None \<Rightarrow> Inr (Inr nodes)
                   | Some node \<Rightarrow> Inr (Inr ((name, node) # nodes))))))"

text \<open>
  Modelled from the spec: the hook with which the engine constructs errors for an
  extension is not part of the sources at hand. The spec: a validation error carries the
  absolute schema URL with the keyword path, the absolute instance path, a message with
  the offending value interpolated, the structured keyword value, and a list of causes.
  \<open>sloc\<close> is the location of the schema being validated and \<open>vloc\<close> the instance path.
\<close>

definition engine_validationError ::
  "string \<Rightarrow> string \<Rightarrow> Context \<Rightarrow> string \<Rightarrow> iface \<Rightarrow> string \<Rightarrow> iface list \<Rightarrow> ValidationError" where
  "engine_validationError sloc vloc ctx keywordPath keywordValue format a =
     ValidationError keywordPath (sloc @ ''/'' @ keywordPath) vloc (Sprintf format a)
       keywordValue []"

text \<open>
  Modelled from the spec: the engine's step for extensions is not part of the sources at
  hand. The spec (validation engine, step 8): call every attached extension node's
  validate hook with a validation context; a failing instance gives one top-level
  validation error, whose children are the errors of the hooks.
\<close>

fun validateExtensions ::
  "(string \<times> ExtSchema) list \<Rightarrow> Context \<Rightarrow> ValidationContext \<Rightarrow> iface \<Rightarrow>
   (panic + error list) option" where
  "validateExtensions [] ctx vctx v = Some (Inr [])"
| "validateExtensions ((name, node) # rest) ctx vctx v =
     (case node ctx vctx v of
        None \<Rightarrow> None
      | Some (Inl p) \<Rightarrow> Some (Inl p)
      | Some (Inr e) \<Rightarrow>
          (case validateExtensions rest ctx vctx v of
             None \<Rightarrow> None
           | Some (Inl p) \<Rightarrow> Some (Inl p)
           | Some (Inr errs) \<Rightarrow>
               Some (Inr (case e of None \<Rightarrow> errs | Some err \<Rightarrow> err # errs))))"

fun validation_causes :: "error list \<Rightarrow> ValidationError list" where
  "validation_causes [] = []"
| "validation_causes (ValidationErr e # errs) = e # validation_causes errs"
| "validation_causes (_ # errs) = validation_causes errs"

definition Schema_Validate ::
  "string \<Rightarrow> (string \<times> ExtSchema) list \<Rightarrow> ValidationContext \<Rightarrow> Context \<Rightarrow> iface \<Rightarrow>
   (panic + error option) option" where
  "Schema_Validate sloc nodes vctx0 ctx v =
     (case validateExtensions nodes ctx
             (vctx0\<lparr>validationError := engine_validationError sloc []\<rparr>) v of
        None \<Rightarrow> None
      | Some (Inl p) \<Rightarrow> Some (Inl p)
      | Some (Inr []) \<Rightarrow> Some (Inr None)
      | Some (Inr errs) \<Rightarrow>
          Some (Inr (Some (ValidationErr
            (ValidationError [] sloc [] (''doesn't validate with '' @ sloc) Nil
               (validation_causes errs))))))"

text \<open>The messages of an error tree: the node's own and those of its causes.\<close>

fun messages :: "ValidationError \<Rightarrow> string list" where
  "messages (ValidationError kl akl il msg kv cs) = msg # concat (map messages cs)"

section \<open>Concrete inputs\<close>

text \<open>
  A validation context in the middle of a validation: the properties \<open>a\<close> and \<open>b\<close> and
  the items 0 and 1 are not evaluated yet, and the hooks accept everything.
\<close>

definition example_vctx :: ValidationContext where
  "example_vctx =
     \<lparr>result = \<lparr>unevalProps = [''a'' \<mapsto> (), ''b'' \<mapsto> ()],
                 unevalItems = [0 \<mapsto> (), 1 \<mapsto> ()],
                 childErrors = []\<rparr>,
      validate = (\<lambda>ctx s spath v vpath. None),
      validateInplace = (\<lambda>ctx s spath. None),
      validationError = (\<lambda>ctx kpath kvalue format a.
         ValidationError kpath '''' '''' format kvalue [])\<rparr>"

text \<open>A compiler as \<open>NewCompiler\<close> leaves it: the tables made, and empty.\<close>

definition empty_compiler :: Compiler where
  "empty_compiler =
     \<lparr>ExtractAnnotations = False, extensions = Some Map.empty,
      resources = [], compiled = [], edges = []\<rparr>"

text \<open>A new compiler whose store is a chain of references.\<close>

definition chain_compiler :: "string list \<Rightarrow> (string \<times> bool) list \<Rightarrow> nat \<Rightarrow> Compiler" where
  "chain_compiler ls es j = empty_compiler\<lparr>resources := reference_chain ls es j\<rparr>"

text \<open>
  The raw schema \<open>{"powerOf": 10}\<close>, decoded with numbers kept as \<open>json.Number\<close>, and a
  raw schema without the keyword.
\<close>

definition powerOf10 :: "string \<rightharpoonup> iface" where
  "powerOf10 = [''powerOf'' \<mapsto> JsonNumber ''10'']"

definition type_object :: "string \<rightharpoonup> iface" where
  "type_object = [''type'' \<mapsto> GoString ''object'']"

text \<open>
  An extension compiler that does not look at the raw schema and always returns a
  compiled representation, one that accepts every value.
\<close>

definition always_compiler :: ExtCompiler where
  "always_compiler m = Inr (Some (\<lambda>ctx vctx v. Some (Inr None)), None)"

section \<open>Properties of the extension interface\<close>

subsection \<open>Sub-validation from an extension\<close>

text \<open>
  Claim C4. \<open>ValidationContext.Validate\<close> validates in place (the hook
  \<open>validateInplace\<close>, which is not given the value) exactly when the value path is the
  empty string, and validates the value at the value path (the hook \<open>validate\<close>)
  exactly when the path is not empty. The hooks are arbitrary, so the equations say which
  hook runs and with which arguments; two hooks that answer differently show that
  the choice is made by the path alone.
\<close>

theorem Validate_dispatch:
  "Validate vctx ctx s spath v '''' = validateInplace vctx ctx s spath
   \<and> Validate vctx ctx s spath v (ch # vpath) = validate vctx ctx s spath v (ch # vpath)
   \<and> Validate vctx ctx s spath v '''' = Validate vctx ctx s spath v' ''''
   \<and> ((Validate (vctx\<lparr>validateInplace := \<lambda>_ _ _. None,
                         validate := \<lambda>_ _ _ _ _. Some ErrSyntax\<rparr>) ctx s spath v p = None)
        = (p = ''''))"
  by (simp add: Validate_def)

subsection \<open>Marking properties and items as evaluated\<close>

lemma EvaluatedProp_result:
  "result (EvaluatedProp vctx p) =
     (result vctx)\<lparr>unevalProps := (unevalProps (result vctx))(p := None)\<rparr>"
  by (simp add: EvaluatedProp_def)

lemma EvaluatedItem_result:
  "result (EvaluatedItem vctx i) =
     (result vctx)\<lparr>unevalItems := (unevalItems (result vctx))(i := None)\<rparr>"
  by (simp add: EvaluatedItem_def)

lemma EvaluatedProp_absent:
  "p \<notin> dom (unevalProps (result vctx)) \<Longrightarrow> EvaluatedProp vctx p = vctx"
proof -
  assume "p \<notin> dom (unevalProps (result vctx))"
  then have "(unevalProps (result vctx))(p := None) = unevalProps (result vctx)"
    by (auto simp: fun_upd_idem_iff)
  then show ?thesis by (simp add: EvaluatedProp_def)
qed

lemma EvaluatedItem_absent:
  "i \<notin> dom (unevalItems (result vctx)) \<Longrightarrow> EvaluatedItem vctx i = vctx"
proof -
  assume "i \<notin> dom (unevalItems (result vctx))"
  then have "(unevalItems (result vctx))(i := None) = unevalItems (result vctx)"
    by (auto simp: fun_upd_idem_iff)
  then show ?thesis by (simp add: EvaluatedItem_def)
qed

text \<open>
  Claim C8. \<open>EvaluatedProp p\<close> removes exactly \<open>p\<close> from the unevaluated property
  names and leaves the other names, the unevaluated item indices, the child errors and
  the hooks of the context as they were; \<open>EvaluatedItem i\<close> does the same for index
  \<open>i\<close> of the unevaluated items. Both are idempotent, and both change nothing when the
  name or index is not in the set.
\<close>

theorem Evaluated_frame:
  "dom (unevalProps (result (EvaluatedProp vctx p))) = dom (unevalProps (result vctx)) - {p}
   \<and> (\<forall>q. q \<noteq> p \<longrightarrow>
          unevalProps (result (EvaluatedProp vctx p)) q = unevalProps (result vctx) q)
   \<and> unevalItems (result (EvaluatedProp vctx p)) = unevalItems (result vctx)
   \<and> childErrors (result (EvaluatedProp vctx p)) = childErrors (result vctx)
   \<and> validate (EvaluatedProp vctx p) = validate vctx
   \<and> validateInplace (EvaluatedProp vctx p) = validateInplace vctx
   \<and> validationError (EvaluatedProp vctx p) = validationError vctx
   \<and> EvaluatedProp (EvaluatedProp vctx p) p = EvaluatedProp vctx p
   \<and> (p \<notin> dom (unevalProps (result vctx)) \<longrightarrow> EvaluatedProp vctx p = vctx)
   \<and> dom (unevalItems (result (EvaluatedItem vctx i))) = dom (unevalItems (result vctx)) - {i}
   \<and> (\<forall>j. j \<noteq> i \<longrightarrow>
          unevalItems (result (EvaluatedItem vctx i)) j = unevalItems (result vctx) j)
   \<and> unevalProps (result (EvaluatedItem vctx i)) = unevalProps (result vctx)
   \<and> childErrors (result (EvaluatedItem vctx i)) = childErrors (result vctx)
   \<and> validate (EvaluatedItem vctx i) = validate vctx
   \<and> validateInplace (EvaluatedItem vctx i) = validateInplace vctx
   \<and> validationError (EvaluatedItem vctx i) = validationError vctx
   \<and> EvaluatedItem (EvaluatedItem vctx i) i = EvaluatedItem vctx i
   \<and> (i \<notin> dom (unevalItems (result vctx)) \<longrightarrow> EvaluatedItem vctx i = vctx)"
proof -
  have props: "dom (unevalProps (result (EvaluatedProp vctx p))) = dom (unevalProps (result vctx)) - {p}"
    by (simp add: EvaluatedProp_result)
  have items: "dom (unevalItems (result (EvaluatedItem vctx i))) = dom (unevalItems (result vctx)) - {i}"
    by (simp add: EvaluatedItem_result)
  have idem_p: "EvaluatedProp (EvaluatedProp vctx p) p = EvaluatedProp vctx p"
    by (simp add: EvaluatedProp_def)
  have idem_i: "EvaluatedItem (EvaluatedItem vctx i) i = EvaluatedItem vctx i"
    by (simp add: EvaluatedItem_def)
  have frame_p:
    "(\<forall>q. q \<noteq> p \<longrightarrow> unevalProps (result (EvaluatedProp vctx p)) q = unevalProps (result vctx) q)
     \<and> unevalItems (result (EvaluatedProp vctx p)) = unevalItems (result vctx)
     \<and> childErrors (result (EvaluatedProp vctx p)) = childErrors (result vctx)
     \<and> validate (EvaluatedProp vctx p) = validate vctx
     \<and> validateInplace (EvaluatedProp vctx p) = validateInplace vctx
     \<and> validationError (EvaluatedProp vctx p) = validationError vctx"
    by (simp add: EvaluatedProp_def)
  have frame_i:
    "(\<forall>j. j \<noteq> i \<longrightarrow> unevalItems (result (EvaluatedItem vctx i)) j = unevalItems (result vctx) j)
     \<and> unevalProps (result (EvaluatedItem vctx i)) = unevalProps (result vctx)
     \<and> childErrors (result (EvaluatedItem vctx i)) = childErrors (result vctx)
     \<and> validate (EvaluatedItem vctx i) = validate vctx
     \<and> validateInplace (EvaluatedItem vctx i) = validateInplace vctx
     \<and> validationError (EvaluatedItem vctx i) = validationError vctx"
    by (simp add: EvaluatedItem_def)
  from props items idem_p idem_i frame_p frame_i
    EvaluatedProp_absent [of p vctx] EvaluatedItem_absent [of i vctx]
  show ?thesis by blast
qed

theorem Evaluated_frame_witness:
  "''c'' \<notin> dom (unevalProps (result example_vctx))
   \<and> EvaluatedProp example_vctx ''c'' = example_vctx
   \<and> ''a'' \<noteq> ''c''
   \<and> unevalProps (result (EvaluatedProp example_vctx ''c'')) ''a'' = Some ()
   \<and> 7 \<notin> dom (unevalItems (result example_vctx))
   \<and> EvaluatedItem example_vctx 7 = example_vctx
   \<and> (0::int) \<noteq> 7
   \<and> unevalItems (result (EvaluatedItem example_vctx 7)) 0 = Some ()"
proof -
  have p: "''c'' \<notin> dom (unevalProps (result example_vctx))"
    by (simp add: example_vctx_def)
  have i: "7 \<notin> dom (unevalItems (result example_vctx))"
    by (simp add: example_vctx_def)
  have a: "unevalProps (result example_vctx) ''a'' = Some ()"
    by (simp add: example_vctx_def)
  have z: "unevalItems (result example_vctx) 0 = Some ()"
    by (simp add: example_vctx_def)
  from Evaluated_frame [of example_vctx "''c''" 7] p i a z
  show ?thesis by simp
qed

subsection \<open>Registering an extension\<close>

text \<open>
  Claim C10. On a compiler whose extension table has been made, \<open>RegisterExtension\<close>
  maps the name to the pair of metaschema and extension compiler; the entries under every
  other name and the other fields of the compiler are unchanged; and a second
  registration under the same name replaces the first, so the table is the one that the
  second registration alone would give.
\<close>

theorem RegisterExtension_table:
  assumes "extensions c = Some table"
  shows "\<exists>c1 c2 t1 t2.
           RegisterExtension c name m ext = Inr c1
         \<and> extensions c1 = Some t1
         \<and> t1 name = Some \<lparr>meta = m, compiler = ext\<rparr>
         \<and> (\<forall>other. other \<noteq> name \<longrightarrow> t1 other = table other)
         \<and> ExtractAnnotations c1 = ExtractAnnotations c
         \<and> resources c1 = resources c \<and> compiled c1 = compiled c \<and> edges c1 = edges c
         \<and> RegisterExtension c1 name m' ext' = Inr c2
         \<and> extensions c2 = Some t2
         \<and> t2 name = Some \<lparr>meta = m', compiler = ext'\<rparr>
         \<and> (\<forall>other. other \<noteq> name \<longrightarrow> t2 other = table other)
         \<and> RegisterExtension c name m' ext' = Inr c2"
  using assms by (simp add: RegisterExtension_def)

theorem RegisterExtension_table_witness:
  "extensions empty_compiler = Some Map.empty
   \<and> (\<exists>c1 c2 t1 t2.
           RegisterExtension empty_compiler ''powerOf'' ''powerOf.json#'' (\<lambda>m. Inr (None, None)) = Inr c1
         \<and> extensions c1 = Some t1
         \<and> t1 ''powerOf'' = Some \<lparr>meta = ''powerOf.json#'', compiler = (\<lambda>m. Inr (None, None))\<rparr>
         \<and> (\<forall>other. other \<noteq> ''powerOf'' \<longrightarrow> t1 other = None)
         \<and> RegisterExtension c1 ''powerOf'' ''other.json#'' (\<lambda>m. Inl (Panic ''x'')) = Inr c2
         \<and> extensions c2 = Some t2
         \<and> t2 ''powerOf'' = Some \<lparr>meta = ''other.json#'', compiler = (\<lambda>m. Inl (Panic ''x''))\<rparr>
         \<and> (\<forall>other. other \<noteq> ''powerOf'' \<longrightarrow> t2 other = None))"
proof -
  have h: "extensions empty_compiler = Some Map.empty"
    by (simp add: empty_compiler_def)
  from RegisterExtension_table [OF h, of "''powerOf''" "''powerOf.json#''"
      "\<lambda>m. Inr (None, None)" "''other.json#''" "\<lambda>m. Inl (Panic ''x'')"]
  show ?thesis using h by auto
qed

section \<open>Properties of the context accessors\<close>

subsection \<open>Writing and reading context values\<close>

lemma Value_append:
  "Value (ps @ ctx) k = (case map_of ps k of Some v \<Rightarrow> v | None \<Rightarrow> Value ctx k)"
  by (induction ps) auto

lemma upt_map_shift:
  "map f [0..<Suc n] = f 0 # map (\<lambda>m. f (Suc m)) [0..<n]"
  by (simp only: upt_conv_Cons [of 0 "Suc n"] map_Suc_upt [symmetric]) (simp add: comp_def del: upt_Suc)

lemma withValues_loop_writes:
  "1 \<le> i \<Longrightarrow>
   (\<forall>m < (length vals + 1 - i) div 2.
      vals ! (i - 1 + 2 * m) \<noteq> Nil \<and> comparable (vals ! (i - 1 + 2 * m))) \<Longrightarrow>
   withValues_loop ctx vals i =
     Inr (rev (map (\<lambda>m. (vals ! (i - 1 + 2 * m), vals ! (i + 2 * m)))
            [0..<(length vals + 1 - i) div 2]) @ ctx)"
proof (induction ctx vals i rule: withValues_loop.induct)
  case (1 ctx vals i)
  let ?n = "(length vals + 1 - i) div 2"
  show ?case
  proof (cases "i < length vals")
    case False
    then have "?n = 0" by simp
    with False show ?thesis by (simp add: withValues_loop.simps)
  next
    case True
    define n where "n = (length vals + 1 - (i + 2)) div 2"
    have "?n = Suc n" unfolding n_def using True by presburger
    then have n: "?n = Suc n" "(length vals + 1 - (i + 2)) div 2 = n"
      by (simp_all add: n_def)
    from "1.prems"(2) n have key: "vals ! (i - 1) \<noteq> Nil" "comparable (vals ! (i - 1))"
      by (metis add.right_neutral mult_0_right zero_less_Suc)+
    then have w: "WithValue ctx (vals ! (i - 1)) (vals ! i) = Inr ((vals ! (i - 1), vals ! i) # ctx)"
      by (simp add: WithValue_def)
    have rest: "\<forall>m < (length vals + 1 - (i + 2)) div 2.
        vals ! (i + 2 - 1 + 2 * m) \<noteq> Nil \<and> comparable (vals ! (i + 2 - 1 + 2 * m))"
    proof (intro allI impI)
      fix m assume "m < (length vals + 1 - (i + 2)) div 2"
      then have "Suc m < ?n" using n by simp
      with "1.prems"(2) have "vals ! (i - 1 + 2 * Suc m) \<noteq> Nil \<and> comparable (vals ! (i - 1 + 2 * Suc m))"
        by blast
      moreover have "i - 1 + 2 * Suc m = i + 2 - 1 + 2 * m" using "1.prems"(1) by simp
      ultimately show "vals ! (i + 2 - 1 + 2 * m) \<noteq> Nil \<and> comparable (vals ! (i + 2 - 1 + 2 * m))"
        by simp
    qed
    have ih: "withValues_loop ((vals ! (i - 1), vals ! i) # ctx) vals (i + 2) =
       Inr (rev (map (\<lambda>m. (vals ! (i + 2 - 1 + 2 * m), vals ! (i + 2 + 2 * m))) [0..<n])
            @ (vals ! (i - 1), vals ! i) # ctx)"
      using "1.IH" [OF True w _ rest] n by simp
    have shift: "\<And>m. i + 2 - 1 + 2 * m = i - 1 + 2 * Suc m" "\<And>m. i + 2 + 2 * m = i + 2 * Suc m"
      using "1.prems"(1) by simp_all
    have "withValues_loop ctx vals i = withValues_loop ((vals ! (i - 1), vals ! i) # ctx) vals (i + 2)"
      using True w by (subst withValues_loop.simps) simp
    also have "\<dots> = Inr (rev (map (\<lambda>m. (vals ! (i - 1 + 2 * m), vals ! (i + 2 * m))) [0..<Suc n]) @ ctx)"
      unfolding ih shift by (subst upt_map_shift) simp
    finally show ?thesis using n by simp
  qed
qed

lemma Value_latest:
  "m < n \<Longrightarrow> fst (f m) = k \<Longrightarrow> (\<forall>m'. m < m' \<and> m' < n \<longrightarrow> fst (f m') \<noteq> k) \<Longrightarrow>
   Value (rev (map f [0..<n]) @ ctx) k = snd (f m)"
proof (induction n)
  case 0
  then show ?case by simp
next
  case (Suc n)
  show ?case
  proof (cases "m = n")
    case True
    with Suc.prems show ?thesis by (cases "f n") auto
  next
    case False
    with Suc.prems have "m < n" "fst (f n) \<noteq> k" by auto
    with Suc show ?thesis by (cases "f n") auto
  qed
qed

lemma Value_unwritten:
  "(\<forall>m < n. fst (f m) \<noteq> k) \<Longrightarrow> Value (rev (map f [0..<n]) @ ctx) k = Value ctx k"
proof (induction n)
  case 0
  then show ?case by simp
next
  case (Suc n)
  then show ?case by (cases "f n") auto
qed

lemma withValues_writes:
  assumes "\<forall>m < length vals div 2. vals ! (2 * m) \<noteq> Nil \<and> comparable (vals ! (2 * m))"
  shows "withValues ctx vals =
     Inr (rev (map (\<lambda>m. (vals ! (2 * m), vals ! (2 * m + 1))) [0..<length vals div 2]) @ ctx)"
  using withValues_loop_writes [of 1 vals ctx] assms by (simp add: withValues_def)

lemma withValues_trailing:
  assumes "\<forall>m < length vals div 2. vals ! (2 * m) \<noteq> Nil \<and> comparable (vals ! (2 * m))"
    and "even (length vals)"
  shows "withValues ctx (vals @ [x]) = withValues ctx vals"
proof -
  let ?n = "length vals div 2"
  have len: "length (vals @ [x]) div 2 = ?n" using assms(2) by auto
  have nth: "\<And>j. j < 2 * ?n \<Longrightarrow> (vals @ [x]) ! j = vals ! j"
    using assms(2) by (auto simp: nth_append)
  have keys': "\<forall>m < length (vals @ [x]) div 2.
      (vals @ [x]) ! (2 * m) \<noteq> Nil \<and> comparable ((vals @ [x]) ! (2 * m))"
    using assms(1) len nth by auto
  have "map (\<lambda>m. ((vals @ [x]) ! (2 * m), (vals @ [x]) ! (2 * m + 1))) [0..<?n]
      = map (\<lambda>m. (vals ! (2 * m), vals ! (2 * m + 1))) [0..<?n]"
    using nth by (intro map_cong) auto
  then show ?thesis
    using withValues_writes [OF keys', of ctx] withValues_writes [OF assms(1), of ctx] len
    by simp
qed

text \<open>
  Claim C9. For every context and every argument list whose keys (the arguments at the
  even positions that have a successor) are usable as context keys, that is, not nil and
  comparable: \<open>withValues\<close> returns the context extended by the pairs (argument \<open>2m\<close>
  with argument \<open>2m + 1\<close>), the last pair innermost, and an unpaired last argument is
  ignored. Reading a key gives the value of the most recent pair that wrote it, and the
  value of the old context for a key that no pair wrote. Writing a value under one of the
  four keys of the package and reading it with the accessor of that key gives the value
  back.
\<close>

theorem withValues_roundtrip:
  assumes "\<forall>m < length vals div 2. vals ! (2 * m) \<noteq> Nil \<and> comparable (vals ! (2 * m))"
  shows "\<exists>c. withValues ctx vals = Inr c
     \<and> c = rev (map (\<lambda>m. (vals ! (2 * m), vals ! (2 * m + 1))) [0..<length vals div 2]) @ ctx
     \<and> (\<forall>k m. m < length vals div 2 \<and> vals ! (2 * m) = k
            \<and> (\<forall>m'. m < m' \<and> m' < length vals div 2 \<longrightarrow> vals ! (2 * m') \<noteq> k)
          \<longrightarrow> Value c k = vals ! (2 * m + 1))
     \<and> (\<forall>k. (\<forall>m < length vals div 2. vals ! (2 * m) \<noteq> k) \<longrightarrow> Value c k = Value ctx k)
     \<and> (even (length vals) \<longrightarrow> withValues ctx (vals @ [x]) = Inr c)
     \<and> (\<exists>c'. withValues c [instanceCtxKey, inst] = Inr c' \<and> GetInstance c' = Inr inst)
     \<and> (\<exists>c'. withValues c [instancePathCtxKey, GoString p] = Inr c' \<and> GetInstancePath c' = Inr p)
     \<and> (\<exists>c'. withValues c [keywordPathCtxKey, GoString kp] = Inr c' \<and> GetKeywordPath c' = Inr kp)
     \<and> (\<exists>c'. withValues c [scopesCtxKey, SchemaRefs sc] = Inr c' \<and> GetScopes c' = Inr sc)"
proof -
  let ?f = "\<lambda>m. (vals ! (2 * m), vals ! (2 * m + 1))"
  let ?c = "rev (map ?f [0..<length vals div 2]) @ ctx"
  have w: "withValues ctx vals = Inr ?c" by (rule withValues_writes [OF assms])
  have latest: "\<forall>k m. m < length vals div 2 \<and> vals ! (2 * m) = k
            \<and> (\<forall>m'. m < m' \<and> m' < length vals div 2 \<longrightarrow> vals ! (2 * m') \<noteq> k)
          \<longrightarrow> Value ?c k = vals ! (2 * m + 1)"
    using Value_latest [of _ "length vals div 2" ?f _ ctx] by simp
  have unwritten: "\<forall>k. (\<forall>m < length vals div 2. vals ! (2 * m) \<noteq> k) \<longrightarrow> Value ?c k = Value ctx k"
    using Value_unwritten [of "length vals div 2" ?f _ ctx] by simp
  have trailing: "even (length vals) \<longrightarrow> withValues ctx (vals @ [x]) = Inr ?c"
    using withValues_trailing [OF assms, where x = x and ctx = ctx] w by simp
  have one: "\<And>k v c0. k \<noteq> Nil \<Longrightarrow> comparable k \<Longrightarrow> withValues c0 [k, v] = Inr ((k, v) # c0)"
    by (simp add: withValues_def WithValue_def withValues_loop.simps)
  have g1: "\<exists>c'. withValues ?c [instanceCtxKey, inst] = Inr c' \<and> GetInstance c' = Inr inst"
    by (simp add: one instanceCtxKey_def GetInstance_def)
  have g2: "\<exists>c'. withValues ?c [instancePathCtxKey, GoString p] = Inr c' \<and> GetInstancePath c' = Inr p"
    by (simp add: one instancePathCtxKey_def GetInstancePath_def)
  have g3: "\<exists>c'. withValues ?c [keywordPathCtxKey, GoString kp] = Inr c' \<and> GetKeywordPath c' = Inr kp"
    by (simp add: one keywordPathCtxKey_def GetKeywordPath_def)
  have g4: "\<exists>c'. withValues ?c [scopesCtxKey, SchemaRefs sc] = Inr c' \<and> GetScopes c' = Inr sc"
    by (simp add: one scopesCtxKey_def GetScopes_def)
  from w latest unwritten trailing g1 g2 g3 g4 show ?thesis by blast
qed



theorem withValues_roundtrip_witness:
  "\<exists>c. withValues Background
          [instancePathCtxKey, GoString ''/a'', keywordPathCtxKey, GoString ''type'',
           instancePathCtxKey, GoString ''/b''] = Inr c
      \<and> Value c instancePathCtxKey = GoString ''/b''
      \<and> Value c keywordPathCtxKey = GoString ''type''
      \<and> Value c scopesCtxKey = Nil
      \<and> withValues Background
          ([instancePathCtxKey, GoString ''/a'', keywordPathCtxKey, GoString ''type'',
            instancePathCtxKey, GoString ''/b''] @ [GoBool True]) = Inr c"
proof -
  let ?vals = "[instancePathCtxKey, GoString ''/a'', keywordPathCtxKey, GoString ''type'',
           instancePathCtxKey, GoString ''/b'']"
  have three: "\<And>m::nat. m < 3 \<longleftrightarrow> m = 0 \<or> m = 1 \<or> m = 2" by arith
  have keys: "\<forall>m < length ?vals div 2. ?vals ! (2 * m) \<noteq> Nil \<and> comparable (?vals ! (2 * m))"
    by (auto simp: less_Suc_eq instancePathCtxKey_def keywordPathCtxKey_def)
  from withValues_roundtrip [OF keys, of Background "GoBool True"]
  obtain c where c: "withValues Background ?vals = Inr c"
    and latest: "\<forall>k m. m < length ?vals div 2 \<and> ?vals ! (2 * m) = k
            \<and> (\<forall>m'. m < m' \<and> m' < length ?vals div 2 \<longrightarrow> ?vals ! (2 * m') \<noteq> k)
          \<longrightarrow> Value c k = ?vals ! (2 * m + 1)"
    and unwritten: "\<forall>k. (\<forall>m < length ?vals div 2. ?vals ! (2 * m) \<noteq> k)
          \<longrightarrow> Value c k = Value Background k"
    and trailing: "even (length ?vals) \<longrightarrow> withValues Background (?vals @ [GoBool True]) = Inr c"
    by blast
  have "Value c instancePathCtxKey = ?vals ! (2 * 2 + 1)"
    by (rule latest [rule_format]) (auto simp: less_Suc_eq instancePathCtxKey_def keywordPathCtxKey_def)
  then have p: "Value c instancePathCtxKey = GoString ''/b''" by simp
  have "Value c keywordPathCtxKey = ?vals ! (2 * 1 + 1)"
    by (rule latest [rule_format])
       (auto simp: less_Suc_eq instancePathCtxKey_def keywordPathCtxKey_def)
  then have k: "Value c keywordPathCtxKey = GoString ''type''" by simp
  have "Value c scopesCtxKey = Value Background scopesCtxKey"
    by (rule unwritten [rule_format])
       (auto simp: less_Suc_eq instancePathCtxKey_def keywordPathCtxKey_def scopesCtxKey_def)
  then have s: "Value c scopesCtxKey = Nil" by (simp add: Background_def)
  from trailing have t: "withValues Background (?vals @ [GoBool True]) = Inr c" by simp
  from c p k s t show ?thesis by blast
qed

subsection \<open>Reading a key that was never set\<close>

lemma GetInstance_total: "GetInstance ctx = Inr (Value ctx instanceCtxKey)"
  by (simp add: GetInstance_def)

lemma GetKeywordPath_panics_iff:
  "(\<exists>p. GetKeywordPath ctx = Inl p) \<longleftrightarrow> (\<forall>s. Value ctx keywordPathCtxKey \<noteq> GoString s)"
  by (auto simp: GetKeywordPath_def split: iface.splits)

lemma GetInstancePath_panics_iff:
  "(\<exists>p. GetInstancePath ctx = Inl p) \<longleftrightarrow> (\<forall>s. Value ctx instancePathCtxKey \<noteq> GoString s)"
  by (auto simp: GetInstancePath_def split: iface.splits)

lemma GetScopes_panics_iff:
  "(\<exists>p. GetScopes ctx = Inl p) \<longleftrightarrow> (\<forall>s. Value ctx scopesCtxKey \<noteq> SchemaRefs s)"
  by (auto simp: GetScopes_def split: iface.splits)

text \<open>
  Claim C6, the accessors on a context in which no key was set. \<open>GetInstance\<close> returns
  the nil interface. \<open>GetScopes\<close>, \<open>GetKeywordPath\<close> and \<open>GetInstancePath\<close> assert the
  dynamic type of the nil interface and panic.
\<close>

theorem accessors_on_Background:
  "GetInstance Background = Inr Nil
   \<and> GetScopes Background = Inl (Panic ''interface conversion'')
   \<and> GetKeywordPath Background = Inl (Panic ''interface conversion'')
   \<and> GetInstancePath Background = Inl (Panic ''interface conversion'')"
  by (simp add: Background_def GetInstance_def GetScopes_def GetKeywordPath_def
      GetInstancePath_def)

section \<open>Properties of the example extension\<close>

subsection \<open>The schema with keyword \<open>powerOf\<close> 10\<close>

lemma ParseInt_10: "ParseInt ''10'' = (10, None)"
  by (simp add: ParseInt_def ParseUint_def digit_val_def)

lemma ParseInt_100: "ParseInt ''100'' = (100, None)"
  by (simp add: ParseInt_def ParseUint_def digit_val_def)

lemma ParseInt_111: "ParseInt ''111'' = (111, None)"
  by (simp add: ParseInt_def ParseUint_def digit_val_def)

lemma itoa_small: "itoa 10 = ''10''" "itoa 100 = ''100''" "itoa 111 = ''111''"
  by (simp_all add: itoa_def digits.simps)

lemma powerOf_loop_100: "powerOf_loop 100 10 = Some (Inr 1)"
  by (simp add: powerOf_loop.simps go_rem_def go_quot_def wrap64_def)

lemma powerOf_loop_111: "powerOf_loop 111 10 = Some (Inr 111)"
  by (simp add: powerOf_loop.simps go_rem_def go_quot_def wrap64_def)

lemma powerOf10_compiles:
  "powerOfCompiler_Compile powerOf10 = Inr (Some (powerOfSchema_Validate 10), None)"
  by (simp add: powerOfCompiler_Compile_def powerOf10_def ParseInt_10)

lemma validate_100:
  "powerOfSchema_Validate 10 ctx vctx (GoInt 100) = Some (Inr None)"
  by (simp add: powerOfSchema_Validate_def itoa_small ParseInt_100 powerOf_loop_100)

lemma validate_111:
  "powerOfSchema_Validate 10 ctx vctx (GoInt 111) =
     Some (Inr (Some (ValidationErr
       (validationError vctx ctx ''powerOf'' (JsonArray [GoInt 111, GoInt64 10])
          ''%v not powerOf %v'' [GoInt 111, GoInt64 10]))))"
  by (simp add: powerOfSchema_Validate_def itoa_small ParseInt_111 powerOf_loop_111 Error_def)

lemma message_111:
  "Sprintf ''%v not powerOf %v'' [GoInt 111, GoInt64 10] = ''111 not powerOf 10''"
  by (simp add: itoa_small)

text \<open>
  Claim C2. The compile hook of the example extension, registered under a metaschema that
  accepts the raw schema \<open>{"powerOf": 10}\<close>, attaches one extension node. Validating
  the instance 100 with it (as the Go \<open>int\<close> of the test, or as a decoded
  \<open>json.Number\<close>) returns nil, from the node and from the schema. Validating 111
  returns from the node the error that the context constructs for the format
  \<open>%v not powerOf %v\<close> with the arguments 111 and 10, and from the schema a validation
  error that has the message \<open>111 not powerOf 10\<close> in its tree.
\<close>

theorem powerOf_example:
  "\<exists>node err.
      compileExtensions (\<lambda>mt m. True) [(''powerOf'', \<lparr>meta = mt, compiler = powerOfCompiler_Compile\<rparr>)]
        powerOf10 = Inr (Inr [(''powerOf'', node)])
    \<and> powerOfCompiler_Compile powerOf10 = Inr (Some node, None)
    \<and> node ctx vctx (GoInt 100) = Some (Inr None)
    \<and> node ctx vctx (JsonNumber ''100'') = Some (Inr None)
    \<and> Schema_Validate sloc [(''powerOf'', node)] vctx ctx (GoInt 100) = Some (Inr None)
    \<and> node ctx vctx (GoInt 111) =
         Some (Inr (Some (ValidationErr
           (validationError vctx ctx ''powerOf'' (JsonArray [GoInt 111, GoInt64 10])
              ''%v not powerOf %v'' [GoInt 111, GoInt64 10]))))
    \<and> Schema_Validate sloc [(''powerOf'', node)] vctx ctx (GoInt 111) = Some (Inr (Some (ValidationErr err)))
    \<and> ''111 not powerOf 10'' \<in> set (messages err)
    \<and> Causes err =
         [ValidationError ''powerOf'' (sloc @ ''/powerOf'') [] ''111 not powerOf 10''
            (JsonArray [GoInt 111, GoInt64 10]) []]"
proof -
  let ?node = "powerOfSchema_Validate 10"
  have c: "compileExtensions (\<lambda>mt m. True)
      [(''powerOf'', \<lparr>meta = mt, compiler = powerOfCompiler_Compile\<rparr>)] powerOf10
      = Inr (Inr [(''powerOf'', ?node)])"
    by (simp add: powerOf10_compiles)
  have n100: "?node ctx vctx (JsonNumber ''100'') = Some (Inr None)"
    by (simp add: powerOfSchema_Validate_def ParseInt_100 powerOf_loop_100)
  have s100: "Schema_Validate sloc [(''powerOf'', ?node)] vctx ctx (GoInt 100) = Some (Inr None)"
    by (simp add: Schema_Validate_def validate_100)
  have s111: "Schema_Validate sloc [(''powerOf'', ?node)] vctx ctx (GoInt 111) =
      Some (Inr (Some (ValidationErr
        (ValidationError [] sloc [] (''doesn't validate with '' @ sloc) Nil
          [ValidationError ''powerOf'' (sloc @ ''/powerOf'') [] ''111 not powerOf 10''
            (JsonArray [GoInt 111, GoInt64 10]) []]))))"
    by (simp add: Schema_Validate_def validate_111 engine_validationError_def itoa_small)
  show ?thesis
    apply (rule exI [of _ ?node])
    apply (rule exI [of _ "ValidationError [] sloc [] (''doesn't validate with '' @ sloc) Nil
          [ValidationError ''powerOf'' (sloc @ ''/powerOf'') [] ''111 not powerOf 10''
            (JsonArray [GoInt 111, GoInt64 10]) []]"])
    using c powerOf10_compiles validate_100 n100 s100 validate_111 s111 by (simp add: itoa_small)
qed

subsection \<open>When the compile hook returns nil\<close>

lemma powerOfCompiler_absent:
  "''powerOf'' \<notin> dom m \<Longrightarrow> powerOfCompiler_Compile m = Inr (None, None)"
  by (auto simp: powerOfCompiler_Compile_def split: option.splits)

lemma powerOfCompiler_present:
  "''powerOf'' \<in> dom m \<Longrightarrow> powerOfCompiler_Compile m \<noteq> Inr (None, None)"
  by (auto simp: powerOfCompiler_Compile_def split: option.splits iface.splits prod.splits)

lemma powerOfCompiler_node:
  "powerOfCompiler_Compile m = Inr (Some node, err) \<Longrightarrow> ''powerOf'' \<in> dom m"
  by (auto simp: powerOfCompiler_Compile_def split: option.splits)

lemma compileExtensions_attached:
  "compileExtensions accepts entries m = Inr (Inr nodes) \<Longrightarrow> (nm, nd) \<in> set nodes \<Longrightarrow>
   \<exists>ext. (nm, ext) \<in> set entries \<and> compiler ext m = Inr (Some nd, None)"
proof (induction entries arbitrary: nodes)
  case Nil
  then show ?case by simp
next
  case (Cons entry entries)
  obtain name ext where entry: "entry = (name, ext)" by (cases entry)
  from Cons.prems(1) entry obtain es rest where
    hook: "compiler ext m = Inr (es, None)" and
    rest: "compileExtensions accepts entries m = Inr (Inr rest)" and
    nodes: "nodes = (case es of None \<Rightarrow> rest | Some node \<Rightarrow> (name, node) # rest)"
    by (auto split: if_splits sum.splits prod.splits option.splits)
  show ?case
  proof (cases "(nm, nd) \<in> set rest")
    case True
    from Cons.IH [OF rest True] show ?thesis by auto
  next
    case False
    with Cons.prems(2) nodes have "es = Some nd" "nm = name"
      by (auto split: option.splits)
    with hook entry show ?thesis by auto
  qed
qed

text \<open>
  Claim C3 as stated, for every extension compiler that can be registered: an extension
  compiler that always returns a compiled representation is registered like any other,
  and on a raw schema that has only the keyword \<open>type\<close> it returns a node, which the
  compiler attaches.
\<close>

theorem always_compiler_counterexample:
  "RegisterExtension empty_compiler ''always'' ''always.json#'' always_compiler
     = Inr (empty_compiler\<lparr>extensions :=
         Some [''always'' \<mapsto> \<lparr>meta = ''always.json#'', compiler = always_compiler\<rparr>]\<rparr>)
   \<and> dom type_object = {''type''}
   \<and> (\<exists>node. always_compiler type_object = Inr (Some node, None))
   \<and> (\<exists>node. compileExtensions (\<lambda>mt m. True)
         [(''always'', \<lparr>meta = ''always.json#'', compiler = always_compiler\<rparr>)] type_object
        = Inr (Inr [(''always'', node)]))"
  by (simp add: RegisterExtension_def empty_compiler_def always_compiler_def type_object_def)

text \<open>
  Claim C3, amended. The example compiler \<open>powerOfCompiler\<close> returns nil and no
  error on every raw schema without the keyword \<open>powerOf\<close>, and then no node is
  attached for it; it returns a node only when the keyword is present, and with the
  keyword present it never returns nil without an error. For every registered extension,
  a node is attached under its name only when its hook returned that node and no error.
\<close>

theorem powerOfCompiler_nil_iff_absent:
  "(''powerOf'' \<notin> dom m \<longrightarrow>
        powerOfCompiler_Compile m = Inr (None, None)
      \<and> (accepts mt m \<longrightarrow>
           compileExtensions accepts
             [(name, \<lparr>meta = mt, compiler = powerOfCompiler_Compile\<rparr>)] m = Inr (Inr [])))
   \<and> (\<forall>node err. powerOfCompiler_Compile m = Inr (Some node, err) \<longrightarrow> ''powerOf'' \<in> dom m)
   \<and> (''powerOf'' \<in> dom m \<longrightarrow> powerOfCompiler_Compile m \<noteq> Inr (None, None))
   \<and> (\<forall>nodes nm nd.
         compileExtensions accepts entries m = Inr (Inr nodes) \<and> (nm, nd) \<in> set nodes \<longrightarrow>
         (\<exists>ext. (nm, ext) \<in> set entries \<and> compiler ext m = Inr (Some nd, None)))"
proof -
  have attach: "''powerOf'' \<notin> dom m \<Longrightarrow> accepts mt m \<Longrightarrow>
      compileExtensions accepts [(name, \<lparr>meta = mt, compiler = powerOfCompiler_Compile\<rparr>)] m
        = Inr (Inr [])"
    by (simp add: powerOfCompiler_absent)
  from attach powerOfCompiler_absent [of m] powerOfCompiler_present [of m]
    powerOfCompiler_node [of m] compileExtensions_attached [of accepts entries m]
  show ?thesis by blast
qed

theorem powerOfCompiler_nil_iff_absent_witness:
  "''powerOf'' \<notin> dom type_object
   \<and> powerOfCompiler_Compile type_object = Inr (None, None)
   \<and> compileExtensions (\<lambda>mt m. True)
        [(''powerOf'', \<lparr>meta = ''powerOf.json#'', compiler = powerOfCompiler_Compile\<rparr>)]
        type_object = Inr (Inr [])
   \<and> ''powerOf'' \<in> dom powerOf10
   \<and> powerOfCompiler_Compile powerOf10 \<noteq> Inr (None, None)"
proof -
  have a: "''powerOf'' \<notin> dom type_object" by (simp add: type_object_def)
  have p: "''powerOf'' \<in> dom powerOf10" by (simp add: powerOf10_def)
  from powerOfCompiler_nil_iff_absent [of type_object "\<lambda>mt m. True" "''powerOf.json#''" "''powerOf''" "[]"]
    powerOfCompiler_nil_iff_absent [of powerOf10 "\<lambda>mt m. True" "''powerOf.json#''" "''powerOf''" "[]"] a p
  show ?thesis by blast
qed

section \<open>Properties of compilation\<close>

subsection \<open>Unfolding one step\<close>

lemma compileRef_revisit:
  "map_of (resources c) ref = Some raw \<Longrightarrow> ref \<in> fst ` set (compiled c) \<Longrightarrow>
   compileRef (Suc fuel) c stack refPtr ref =
     (case checkLoop stack \<lparr>path = refPtr, schema = ref\<rparr> of
        Some err \<Rightarrow> Some (Inl err)
      | None \<Rightarrow> Some (Inr (ref, c)))"
  by (simp add: compileRef.simps(2))

lemma compileRef_fresh:
  "map_of (resources c) ref = Some raw \<Longrightarrow> ref \<notin> fst ` set (compiled c) \<Longrightarrow>
   compileRef (Suc fuel) c stack refPtr ref =
     (case compileApplicators fuel
             (c\<lparr>compiled :=
                  (ref, extractAnnotations (ExtractAnnotations c) (object raw)
                          (newSchema ref)) # compiled c\<rparr>)
             (stack @ [\<lparr>path = refPtr, schema = ref\<rparr>]) ref (applicators raw) of
        None \<Rightarrow> None
      | Some (Inl err) \<Rightarrow> Some (Inl err)
      | Some (Inr c') \<Rightarrow> Some (Inr (ref, c')))"
  by (simp add: compileRef.simps(2))

lemma compileRef_missing:
  "map_of (resources c) ref = None \<Longrightarrow>
   compileRef (Suc fuel) c stack refPtr ref = Some (Inl (SchemaError ref))"
  by (simp add: compileRef.simps(2))

lemma compileApplicators_Cons:
  "compileApplicators fuel c stack self (a # rest) =
     (case compileRef fuel c (if sameInstance a then stack else []) (keyword a) (target a) of
        None \<Rightarrow> None
      | Some (Inl err) \<Rightarrow> Some (Inl err)
      | Some (Inr (t, c')) \<Rightarrow>
          compileApplicators fuel (c'\<lparr>edges := edges c' @ [(self, keyword a, t)]\<rparr>)
            stack self rest)"
  by (simp add: compileApplicators.simps(2))

text \<open>What a compilation leaves unchanged, and that the table only grows.\<close>

lemma extends_refl: "extends c c"
  by (simp add: extends_def)

lemma extends_trans: "extends c c1 \<Longrightarrow> extends c1 c2 \<Longrightarrow> extends c c2"
  by (auto simp: extends_def)

lemma extends_alloc: "extends c (c\<lparr>compiled := entry # compiled c\<rparr>)"
  by (auto simp: extends_def)

lemma extends_edges: "extends c (c\<lparr>edges := es\<rparr>)"
  by (simp add: extends_def)

lemma compile_frame:
  "(\<forall>t c'. compileRef fuel c stack refPtr ref = Some (Inr (t, c')) \<longrightarrow>
      extends c c' \<and> t = ref \<and> ref \<in> fst ` set (compiled c'))"
  "(\<forall>c''. compileApplicators fuel c stack self as = Some (Inr c'') \<longrightarrow> extends c c'')"
proof (induction fuel c stack refPtr ref and fuel c stack self as
    rule: compileRef_compileApplicators.induct)
  case (1 c stack refPtr ref)
  then show ?case by simp
next
  case (2 fuel c stack refPtr ref)
  show ?case
  proof (intro allI impI)
    fix t c'
    assume res: "compileRef (Suc fuel) c stack refPtr ref = Some (Inr (t, c'))"
    show "extends c c' \<and> t = ref \<and> ref \<in> fst ` set (compiled c')"
    proof (cases "map_of (resources c) ref")
      case None
      with res show ?thesis by (simp add: compileRef_missing)
    next
      case (Some raw)
      show ?thesis
      proof (cases "ref \<in> fst ` set (compiled c)")
        case True
        with res Some have "t = ref" "c' = c"
          by (auto simp: compileRef_revisit split: option.splits)
        with True show ?thesis by (simp add: extends_refl)
      next
        case False
        let ?c1 = "c\<lparr>compiled := (ref, extractAnnotations (ExtractAnnotations c) (object raw)
                                 (newSchema ref)) # compiled c\<rparr>"
        from res Some False have inner: "compileApplicators fuel ?c1
            (stack @ [\<lparr>path = refPtr, schema = ref\<rparr>]) ref (applicators raw) = Some (Inr c')"
          and t: "t = ref"
          by (auto simp: compileRef_fresh split: option.splits sum.splits)
        from "2.IH" [OF Some False] inner have e: "extends ?c1 c'" by blast
        have "extends c ?c1" by (rule extends_alloc)
        from this e have "extends c c'" by (rule extends_trans)
        moreover from e have "ref \<in> fst ` set (compiled c')" by (auto simp: extends_def)
        ultimately show ?thesis using t by simp
      qed
    qed
  qed
next
  case (3 fuel c stack self)
  then show ?case by (simp add: extends_refl)
next
  case (4 fuel c stack self a rest)
  show ?case
  proof (intro allI impI)
    fix c''
    assume res: "compileApplicators fuel c stack self (a # rest) = Some (Inr c'')"
    then obtain t1 c1 where first:
      "compileRef fuel c (if sameInstance a then stack else []) (keyword a) (target a)
         = Some (Inr (t1, c1))"
      and rest: "compileApplicators fuel (c1\<lparr>edges := edges c1 @ [(self, keyword a, t1)]\<rparr>)
         stack self rest = Some (Inr c'')"
      by (auto simp: compileApplicators_Cons split: option.splits sum.splits)
    from "4.IH"(1) first have e1: "extends c c1" by blast
    from "4.IH"(2) [OF first refl refl] rest
    have e2: "extends (c1\<lparr>edges := edges c1 @ [(self, keyword a, t1)]\<rparr>) c''" by blast
    from e1 extends_edges e2 show "extends c c''" by (blast intro: extends_trans)
  qed
qed

subsection \<open>Compilation returns\<close>

lemma finite_uncompiled: "finite (uncompiled c)"
  by (simp add: uncompiled_def)

lemma uncompiled_extends: "extends c c' \<Longrightarrow> card (uncompiled c') \<le> card (uncompiled c)"
  by (rule card_mono [OF finite_uncompiled]) (auto simp: uncompiled_def extends_def)

lemma uncompiled_edges: "uncompiled (c\<lparr>edges := es\<rparr>) = uncompiled c"
  by (simp add: uncompiled_def)

lemma uncompiled_alloc:
  assumes "map_of (resources c) ref = Some raw" and "ref \<notin> fst ` set (compiled c)"
  shows "card (uncompiled (c\<lparr>compiled := (ref, s) # compiled c\<rparr>)) < card (uncompiled c)"
proof (rule psubset_card_mono [OF finite_uncompiled])
  from assms(1) have "ref \<in> fst ` set (resources c)"
    by (metis map_of_eq_None_iff option.distinct(1))
  with assms(2) have "ref \<in> uncompiled c" by (simp add: uncompiled_def)
  moreover have "ref \<notin> uncompiled (c\<lparr>compiled := (ref, s) # compiled c\<rparr>)"
    by (simp add: uncompiled_def)
  moreover have "uncompiled (c\<lparr>compiled := (ref, s) # compiled c\<rparr>) \<subseteq> uncompiled c"
    by (auto simp: uncompiled_def)
  ultimately show "uncompiled (c\<lparr>compiled := (ref, s) # compiled c\<rparr>) \<subset> uncompiled c"
    by blast
qed

lemma compile_returns:
  "card (uncompiled c) < fuel \<longrightarrow> compileRef fuel c stack refPtr ref \<noteq> None"
  "card (uncompiled c) < fuel \<longrightarrow> compileApplicators fuel c stack self as \<noteq> None"
proof (induction fuel c stack refPtr ref and fuel c stack self as
    rule: compileRef_compileApplicators.induct)
  case (1 c stack refPtr ref)
  then show ?case by simp
next
  case (2 fuel c stack refPtr ref)
  show ?case
  proof (intro impI)
    assume bound: "card (uncompiled c) < Suc fuel"
    show "compileRef (Suc fuel) c stack refPtr ref \<noteq> None"
    proof (cases "map_of (resources c) ref")
      case None
      then show ?thesis by (simp add: compileRef_missing)
    next
      case (Some raw)
      show ?thesis
      proof (cases "ref \<in> fst ` set (compiled c)")
        case True
        with Some show ?thesis by (simp add: compileRef_revisit split: option.splits)
      next
        case False
        let ?c1 = "c\<lparr>compiled := (ref, extractAnnotations (ExtractAnnotations c) (object raw)
                                 (newSchema ref)) # compiled c\<rparr>"
        from uncompiled_alloc [OF Some False] bound have "card (uncompiled ?c1) < fuel"
          by (meson less_Suc_eq_le less_le_trans not_less)
        with "2.IH" [OF Some False] have "compileApplicators fuel ?c1
            (stack @ [\<lparr>path = refPtr, schema = ref\<rparr>]) ref (applicators raw) \<noteq> None"
          by blast
        with Some False show ?thesis
          by (auto simp: compileRef_fresh split: option.splits sum.splits)
      qed
    qed
  qed
next
  case (3 fuel c stack self)
  then show ?case by simp
next
  case (4 fuel c stack self a rest)
  show ?case
  proof (intro impI)
    assume bound: "card (uncompiled c) < fuel"
    with "4.IH"(1) obtain r where r:
      "compileRef fuel c (if sameInstance a then stack else []) (keyword a) (target a) = Some r"
      by blast
    show "compileApplicators fuel c stack self (a # rest) \<noteq> None"
    proof (cases r)
      case (Inl err)
      with r show ?thesis by (simp add: compileApplicators_Cons)
    next
      case (Inr tc)
      obtain t1 c1 where tc: "tc = (t1, c1)" by (cases tc)
      from r Inr tc compile_frame(1) have "extends c c1" by blast
      with bound have "card (uncompiled (c1\<lparr>edges := edges c1 @ [(self, keyword a, t1)]\<rparr>)) < fuel"
        using uncompiled_extends [of c c1] by (simp add: uncompiled_edges)
      with "4.IH"(2) [OF r Inr tc [symmetric]]
      have "compileApplicators fuel (c1\<lparr>edges := edges c1 @ [(self, keyword a, t1)]\<rparr>)
          stack self rest \<noteq> None" by blast
      with r Inr tc show ?thesis by (simp add: compileApplicators_Cons)
    qed
  qed
qed

lemma card_uncompiled_le: "card (uncompiled c) \<le> length (resources c)"
proof -
  have "card (uncompiled c) \<le> card (fst ` set (resources c))"
    by (rule card_mono) (auto simp: uncompiled_def)
  also have "\<dots> \<le> card (set (resources c))" by (rule card_image_le) simp
  also have "\<dots> \<le> length (resources c)" by (rule card_length)
  finally show ?thesis .
qed

lemma Compiler_Compile_returns: "\<exists>r. Compiler_Compile c loc = Some r"
proof -
  have "card (uncompiled c) < Suc (length (resources c))"
    using card_uncompiled_le [of c] by simp
  with compile_returns(1) show ?thesis
    unfolding Compiler_Compile_def by blast
qed

end
